theory Spec2Isabelle
  imports Main "HOL-Library.Sublist" "HOL-Library.Multiset" "HOL-Library.AList"
    "HOL-Library.Char_ord" "HOL-Library.List_Lexorder"
begin

section \<open>The test-source lister: code/tests/tools/wildcard.py\<close>

text \<open>
  The script is two calls of Python's \<^verbatim>\<open>glob.glob\<close> whose results are concatenated and
  printed. The directory tree it looks at is a value: a node is a regular file or a
  directory with its entries in the order in which the operating system enumerates them.
  The current working directory is a map from names to nodes.
\<close>

datatype node = File | Dir "(string \<times> node) list"

datatype os_error = FileNotFoundError | NotADirectoryError | FileExistsError

text \<open>The exceptions that the two programs meet.\<close>

datatype error =
  ConanException string | OSError os_error | AttributeError string | UnicodeEncodeError

type_synonym cwd = "string \<rightharpoonup> node"

text \<open>\<^verbatim>\<open>os.scandir\<close>: raises on a missing path and on a path that is no directory.\<close>

fun scandir :: "node option \<Rightarrow> os_error + string list" where
  "scandir None = Inl FileNotFoundError"
| "scandir (Some File) = Inl NotADirectoryError"
| "scandir (Some (Dir es)) = Inr (map fst es)"

text \<open>
  \<^verbatim>\<open>glob._iterdir\<close> wraps the scan in \<^verbatim>\<open>try: ... except OSError: return\<close>, and
  \<^verbatim>\<open>glob._listdir\<close> collects what it yields: an unreadable directory lists as empty.
\<close>

definition listdir :: "node option \<Rightarrow> string list" where
  "listdir d = (case scandir d of Inl e \<Rightarrow> [] | Inr names \<Rightarrow> names)"

text \<open>\<^verbatim>\<open>glob._ishidden\<close>: \<^verbatim>\<open>path[0] == '.'\<close> (a directory entry's name is never empty).\<close>

fun ishidden :: "string \<Rightarrow> bool" where
  "ishidden [] = False"
| "ishidden (c # cs) = (c = CHR ''.'')"

text \<open>
  \<^verbatim>\<open>fnmatch.fnmatchcase\<close> for patterns of literal characters, \<^verbatim>\<open>*\<close> and \<^verbatim>\<open>?\<close>
  (the two patterns of the script have no bracket expression). The first argument is the
  name, the second the pattern; the whole name must match.
\<close>

fun fnmatchcase :: "string \<Rightarrow> string \<Rightarrow> bool" where
  "fnmatchcase [] [] = True"
| "fnmatchcase (c # cs) [] = False"
| "fnmatchcase [] (p # ps) = (p = CHR ''*'' \<and> fnmatchcase [] ps)"
| "fnmatchcase (c # cs) (p # ps) =
     (if p = CHR ''*'' then fnmatchcase (c # cs) ps \<or> fnmatchcase cs (p # ps)
      else if p = CHR ''?'' then fnmatchcase cs ps
      else c = p \<and> fnmatchcase cs ps)"

text \<open>\<^verbatim>\<open>fnmatch.filter\<close> (on POSIX \<^verbatim>\<open>os.path.normcase\<close> is the identity).\<close>

definition fnmatch_filter :: "string list \<Rightarrow> string \<Rightarrow> string list" where
  "fnmatch_filter names pat = [n \<leftarrow> names. fnmatchcase n pat]"

text \<open>
  \<^verbatim>\<open>glob._glob1\<close>: list the directory, drop the hidden names unless the pattern itself is
  hidden, keep the names that match.
\<close>

definition glob1 :: "node option \<Rightarrow> string \<Rightarrow> string list" where
  "glob1 d pat =
     (let names = listdir d;
          names = (if \<not> ishidden pat then [x \<leftarrow> names. \<not> ishidden x] else names)
      in fnmatch_filter names pat)"

text \<open>
  \<^verbatim>\<open>glob.glob\<close> of a pathname \<^verbatim>\<open>dirname/basename\<close> whose wildcard is in the basename
  only: every match is \<^verbatim>\<open>os.path.join(dirname, name)\<close>.
\<close>

definition glob :: "cwd \<Rightarrow> string \<Rightarrow> string \<Rightarrow> string list" where
  "glob fs dirname basename = map (\<lambda>name. dirname @ ''/'' @ name) (glob1 (fs dirname) basename)"

text \<open>Line 4 of the script.\<close>

definition source_files :: "cwd \<Rightarrow> string list" where
  "source_files fs = glob fs ''cases'' ''*.c'' @ glob fs ''cases'' ''*.cpp''"

text \<open>
  Standard output, as the script meets it: what \<^verbatim>\<open>print(file)\<close> raises for a line, if
  anything. It depends on the stream of the process (its encoding and error handler), so
  it is a parameter of the run.
\<close>

type_synonym stdout = "string \<Rightarrow> error option"

text \<open>
  The loop of lines 7 and 8: the paths are printed in order; the first
  \<^verbatim>\<open>print\<close> that raises ends the run with its exception.
\<close>

fun print_lines :: "stdout \<Rightarrow> string list \<Rightarrow> error + string list" where
  "print_lines out [] = Inr []"
| "print_lines out (l # ls) =
     (case out l of
        Some e \<Rightarrow> Inl e
      | None \<Rightarrow> (case print_lines out ls of Inl e \<Rightarrow> Inl e | Inr printed \<Rightarrow> Inr (l # printed)))"

text \<open>
  The whole script: the value is the lines printed, or the exception that ended the run.
  The \<^verbatim>\<open>OSError\<close> of the directory scan is caught inside \<^verbatim>\<open>glob\<close> and never
  reaches the script.
\<close>

definition wildcard :: "stdout \<Rightarrow> cwd \<Rightarrow> error + string list" where
  "wildcard out fs = print_lines out (source_files fs)"

text \<open>
  A standard output with the encoding \<^verbatim>\<open>ascii\<close> and the error handler
  \<^verbatim>\<open>strict\<close>: a line with a byte outside ASCII cannot be encoded.
\<close>

definition ascii_stdout :: stdout where
  "ascii_stdout l =
     (if list_all (\<lambda>c. of_char c < (128::nat)) l then None else Some UnicodeEncodeError)"

text \<open>The directory of the specification's example, in one enumeration order.\<close>

definition example_entries :: "(string \<times> node) list" where
  "example_entries =
     [(''a.c'', File), (''b.cpp'', File), (''c.txt'', File), (''sub'', Dir [(''d.c'', File)])]"

section \<open>The package recipe: conanfile.py\<close>

subsection \<open>The world the recipe acts on\<close>

text \<open>
  A path is the list of its components from the root; the file system is an association
  list from the paths of its regular files to their contents, in enumeration order
  (directories are implicit: a path is a directory when a file lies below it; there are
  no permissions and no symbolic links).
\<close>

type_synonym path = "string list"

type_synonym filesystem = "(path \<times> string) list"

text \<open>\<^verbatim>\<open>cpp_info\<close>: the two attributes the recipe assigns.\<close>

record CppInfo =
  libs :: "string list"
  includedirs :: "string list"

text \<open>
  The instance \<^verbatim>\<open>self\<close> together with the world around it: \<^verbatim>\<open>self.folders.source\<close>,
  \<^verbatim>\<open>self.folders.build\<close>, \<^verbatim>\<open>self.cpp_info\<close>, \<^verbatim>\<open>self.package_folder\<close>, the working
  directory of the process, the file system, and the command lines the recipe has passed
  to \<^verbatim>\<open>self.run\<close> so far.
\<close>

record conanfile =
  folders_source :: string
  folders_build :: string
  cpp_info :: CppInfo
  package_folder :: path
  work_dir :: path
  files :: filesystem
  commands :: "string list"

text \<open>
  The external collaborators. Each takes the file system and gives back the file system
  it leaves behind, with the diagnostic of a failed run (\<open>None\<close> when the tool exits with
  status 0): the shell behind \<^verbatim>\<open>self.run\<close>, \<^verbatim>\<open>MesonToolchain(self).generate()\<close>, and
  the three steps of \<^verbatim>\<open>Meson(self)\<close>. The configure step builds its command from the
  source and the build folder of the instance, the build step from the build folder; the
  install step is given the package folder.
\<close>

type_synonym tool = "filesystem \<Rightarrow> string option \<times> filesystem"

record tools =
  shell :: "string \<Rightarrow> tool"
  toolchain_generate :: tool
  meson_configure :: "string \<Rightarrow> string \<Rightarrow> tool"
  meson_build :: "string \<Rightarrow> tool"
  meson_install :: "path \<Rightarrow> tool"

type_synonym outcome = "error option \<times> conanfile"

type_synonym recipe_method = "tools \<Rightarrow> conanfile \<Rightarrow> outcome"

text \<open>A failed tool raises \<^verbatim>\<open>ConanException\<close>; the file system is as the tool left it.\<close>

definition external :: "tool \<Rightarrow> conanfile \<Rightarrow> outcome" where
  "external ext s =
     (case ext (files s) of (r, fs') \<Rightarrow> (map_option ConanException r, s\<lparr>files := fs'\<rparr>))"

text \<open>Statement after statement: an exception skips the rest of the body.\<close>

definition and_then :: "outcome \<Rightarrow> (conanfile \<Rightarrow> outcome) \<Rightarrow> outcome" where
  "and_then r f = (case r of (Some e, s) \<Rightarrow> (Some e, s) | (None, s) \<Rightarrow> f s)"


subsection \<open>\<^verbatim>\<open>conan.tools.files.copy\<close>\<close>

text \<open>\<^verbatim>\<open>str.lower\<close> on ASCII.\<close>

definition lower_char :: "char \<Rightarrow> char" where
  "lower_char c =
     (case map_of (zip ''ABCDEFGHIJKLMNOPQRSTUVWXYZ'' ''abcdefghijklmnopqrstuvwxyz'') c of
        Some d \<Rightarrow> d | None \<Rightarrow> c)"

definition lower :: "string \<Rightarrow> string" where
  "lower = map lower_char"

text \<open>A relative path as the string that is matched: its components joined by \<^verbatim>\<open>/\<close>.\<close>

fun join_path :: "path \<Rightarrow> string" where
  "join_path [] = []"
| "join_path [x] = x"
| "join_path (x # y # ys) = x @ ''/'' @ join_path (y # ys)"

text \<open>
  \<^verbatim>\<open>os.walk(src)\<close> as the copy uses it: every file below \<open>src\<close>, at any depth, as its
  path relative to \<open>src\<close>. (The walk skips the folder whose name equals \<open>dst\<close>; here the
  names walked are relative and \<open>dst\<close> is built from the absolute package folder, so
  nothing is skipped.)
\<close>

definition walk :: "filesystem \<Rightarrow> path \<Rightarrow> path list" where
  "walk fs src = [drop (length src) p. p \<leftarrow> map fst fs, strict_prefix src p]"

text \<open>
  \<^verbatim>\<open>_filter_files\<close> with \<^verbatim>\<open>ignore_case=True\<close> and no excludes: the relative names
  whose lower-cased form matches the lower-cased pattern.
\<close>

definition filter_files :: "filesystem \<Rightarrow> path \<Rightarrow> string \<Rightarrow> path list" where
  "filter_files fs src pattern =
     [rel \<leftarrow> walk fs src. fnmatchcase (lower (join_path rel)) (lower pattern)]"

text \<open>
  \<^verbatim>\<open>os.makedirs(parent, exist_ok=True)\<close>: it raises \<^verbatim>\<open>FileExistsError\<close> when the
  folder to make is a regular file, and \<^verbatim>\<open>NotADirectoryError\<close> when a regular file is
  on the way to it.
\<close>

definition makedirs :: "filesystem \<Rightarrow> path \<Rightarrow> os_error option" where
  "makedirs fs parent =
     (if map_of fs parent \<noteq> None then Some FileExistsError
      else if list_ex (\<lambda>q. strict_prefix q parent) (map fst fs) then Some NotADirectoryError
      else None)"

text \<open>
  \<^verbatim>\<open>_copy_files\<close> with \<^verbatim>\<open>keep_path=True\<close>: one file after the other; the folder of
  the destination is made first, then the file is read and written over whatever regular
  file is at the destination.
\<close>

fun copy_files :: "path \<Rightarrow> path \<Rightarrow> path list \<Rightarrow> filesystem \<Rightarrow> error option \<times> filesystem" where
  "copy_files src dst [] fs = (None, fs)"
| "copy_files src dst (rel # rels) fs =
     (case makedirs fs (butlast (dst @ rel)) of
        Some e \<Rightarrow> (Some (OSError e), fs)
      | None \<Rightarrow>
          (case map_of fs (src @ rel) of
             None \<Rightarrow> (Some (OSError FileNotFoundError), fs)
           | Some c \<Rightarrow> copy_files src dst rels (AList.update (dst @ rel) c fs)))"

definition copy :: "string \<Rightarrow> path \<Rightarrow> path \<Rightarrow> conanfile \<Rightarrow> outcome" where
  "copy pattern src dst s =
     (if src = dst then (Some (ConanException ''copy() src and dst must have different values''), s)
      else if prefix ''..'' pattern
      then (Some (ConanException ''copy() relative patterns starting with .. are not possible''), s)
      else case copy_files src dst (filter_files (files s) src pattern) (files s) of
             (r, fs') \<Rightarrow> (r, s\<lparr>files := fs'\<rparr>))"

subsection \<open>The class \<^verbatim>\<open>FossilJellyfishConan\<close>\<close>

definition name :: string where
  "name = ''fossil_jellyfish''"


definition license :: string where
  "license = ''MPL-2.0''"


definition default_options :: "(string \<times> bool) list" where
  "default_options = [(''shared'', False)]"

definition layout :: recipe_method where
  "layout t s = (None, s\<lparr>folders_source := ''.'', folders_build := ''builddir''\<rparr>)"


definition build :: recipe_method where
  "build t s =
     and_then (external (meson_configure t (folders_source s) (folders_build s)) s)
       (\<lambda>s. external (meson_build t (folders_build s)) s)"


text \<open>
  The two folders of the header copy: \<^verbatim>\<open>src="code/logic/fossil/ai"\<close>, a path relative to
  the working directory, and
  \<^verbatim>\<open>dst=os.path.join(self.package_folder, "include", "fossil", "ai")\<close>.
\<close>

definition header_src :: "conanfile \<Rightarrow> path" where
  "header_src s = work_dir s @ [''code'', ''logic'', ''fossil'', ''ai'']"

definition header_dst :: "conanfile \<Rightarrow> path" where
  "header_dst s = package_folder s @ [''include'', ''fossil'', ''ai'']"

definition package :: recipe_method where
  "package t s =
     and_then (external (meson_install t (package_folder s)) s)
       (\<lambda>s. copy ''*.h'' (header_src s) (header_dst s) s)"

definition package_info :: recipe_method where
  "package_info t s =
     (None, s\<lparr>cpp_info := (cpp_info s)\<lparr>libs := [''fossil_jellyfish''], includedirs := [''include'']\<rparr>\<rparr>)"






subsection \<open>Auxiliary notions for stating the properties\<close>

text \<open>
  The file system after a header copy, as a map: every path \<open>dst @ rel\<close> with \<open>rel\<close>
  among the copied relative names holds what \<open>src @ rel\<close> held, every other path is as
  before.
\<close>

definition copied :: "path \<Rightarrow> path \<Rightarrow> path set \<Rightarrow> (path \<rightharpoonup> string) \<Rightarrow> (path \<rightharpoonup> string)" where
  "copied src dst R m =
     (\<lambda>p. if prefix dst p \<and> drop (length dst) p \<in> R then m (src @ drop (length dst) p) else m p)"

text \<open>A recipe instance on which no lifecycle step has run yet.\<close>

definition fresh :: "path \<Rightarrow> path \<Rightarrow> filesystem \<Rightarrow> conanfile" where
  "fresh pf wd fs =
     \<lparr>folders_source = [], folders_build = [], cpp_info = \<lparr>libs = [], includedirs = []\<rparr>,
      package_folder = pf, work_dir = wd, files = fs, commands = []\<rparr>"

text \<open>A tool that exits with status 0 and writes nothing.\<close>

definition quiet :: tool where
  "quiet fs = (None, fs)"

text \<open>External tools that all succeed; the install step installs no file at all.\<close>

definition tools_quiet :: tools where
  "tools_quiet =
     \<lparr>shell = (\<lambda>cmd. quiet), toolchain_generate = quiet,
      meson_configure = (\<lambda>source_folder build_folder. quiet),
      meson_build = (\<lambda>build_folder. quiet), meson_install = (\<lambda>pf. quiet)\<rparr>"

text \<open>External tools whose configure step fails.\<close>

definition tools_failing :: tools where
  "tools_failing =
     tools_quiet\<lparr>meson_configure :=
       (\<lambda>source_folder build_folder fs. (Some ''meson setup failed'', fs))\<rparr>"

text \<open>
  External tools whose install step takes the built library archive from the build folder
  \<^verbatim>\<open>w/builddir\<close> and puts it in the place of the one in the package folder; it fails
  when there is no built archive.
\<close>

definition tools_archive :: tools where
  "tools_archive =
     tools_quiet\<lparr>meson_install :=
       (\<lambda>pf fs. case map_of fs [''w'', ''builddir'', ''libfossil_jellyfish.a''] of
                   None \<Rightarrow> (Some ''nothing to install'', fs)
                 | Some c \<Rightarrow>
                     (None, AList.delete (pf @ [''lib'', ''libfossil_jellyfish.a'']) fs @
                            [(pf @ [''lib'', ''libfossil_jellyfish.a''], c)]))\<rparr>"

text \<open>
  External tools whose install step runs an install script that appends a line to a log
  in the package folder.
\<close>

definition tools_logging :: tools where
  "tools_logging =
     tools_quiet\<lparr>meson_install :=
       (\<lambda>pf fs. (None, AList.update (pf @ [''install.log''])
                   (case map_of fs (pf @ [''install.log'']) of
                      None \<Rightarrow> ''installed;'' | Some c \<Rightarrow> c @ ''installed;'') fs))\<rparr>"

text \<open>A source tree with one header and one C file in the header folder.\<close>

definition example_tree :: filesystem where
  "example_tree =
     [([''w'', ''code'', ''logic'', ''fossil'', ''ai'', ''jellyfish.h''], ''header''),
      ([''w'', ''code'', ''logic'', ''fossil'', ''ai'', ''jellyfish.c''], ''source'')]"

text \<open>The same tree after a build: the library archive is in the build folder.\<close>

definition built_tree :: filesystem where
  "built_tree = example_tree @ [([''w'', ''builddir'', ''libfossil_jellyfish.a''], ''archive'')]"

text \<open>
  The built tree with the package folder \<^verbatim>\<open>p\<close> as the first run of \<^verbatim>\<open>package\<close>
  leaves it, and as the second run leaves it.
\<close>

definition packaged_once :: filesystem where
  "packaged_once =
     built_tree @
     [([''p'', ''lib'', ''libfossil_jellyfish.a''], ''archive''),
      ([''p'', ''include'', ''fossil'', ''ai'', ''jellyfish.h''], ''header'')]"

definition packaged_twice :: filesystem where
  "packaged_twice =
     built_tree @
     [([''p'', ''include'', ''fossil'', ''ai'', ''jellyfish.h''], ''header''),
      ([''p'', ''lib'', ''libfossil_jellyfish.a''], ''archive'')]"

section \<open>Properties of the lister\<close>

lemma fnmatchcase_literal:
  "CHR ''*'' \<notin> set p \<Longrightarrow> CHR ''?'' \<notin> set p \<Longrightarrow> fnmatchcase n p = (n = p)"
proof (induction n p rule: fnmatchcase.induct)
  case (3 p ps)
  then show ?case by auto
next
  case (4 c cs p ps)
  then show ?case by auto
qed simp_all

lemma fnmatchcase_star_literal:
  assumes "CHR ''*'' \<notin> set p" and "CHR ''?'' \<notin> set p"
  shows "fnmatchcase n (CHR ''*'' # p) = suffix p n"
proof (induction n)
  case Nil
  show ?case using fnmatchcase_literal [OF assms, of "[]"] by auto
next
  case (Cons a n)
  have "fnmatchcase (a # n) (CHR ''*'' # p) =
        (fnmatchcase (a # n) p \<or> fnmatchcase n (CHR ''*'' # p))"
    by simp
  also have "\<dots> = (a # n = p \<or> suffix p n)"
    using Cons.IH fnmatchcase_literal [OF assms, of "a # n"] by simp
  also have "\<dots> = suffix p (a # n)"
    by (auto simp: suffix_Cons)
  finally show ?case .
qed

lemma fnmatchcase_star_dot_c: "fnmatchcase n ''*.c'' = suffix ''.c'' n"
  by (rule fnmatchcase_star_literal) simp_all

lemma fnmatchcase_star_dot_cpp: "fnmatchcase n ''*.cpp'' = suffix ''.cpp'' n"
  by (rule fnmatchcase_star_literal) simp_all

lemma source_files_eq:
  "source_files fs =
     map (\<lambda>n. ''cases/'' @ n) [n \<leftarrow> listdir (fs ''cases''). \<not> ishidden n \<and> suffix ''.c'' n] @
     map (\<lambda>n. ''cases/'' @ n) [n \<leftarrow> listdir (fs ''cases''). \<not> ishidden n \<and> suffix ''.cpp'' n]"
  by (simp add: source_files_def glob_def glob1_def fnmatch_filter_def
      fnmatchcase_star_dot_c fnmatchcase_star_dot_cpp conj_commute)

lemma filter_single:
  assumes "mset es = mset bs" and "filter P bs = [x]"
  shows "filter P es = [x]"
proof -
  have "mset (filter P es) = mset (filter P bs)" using assms(1) by simp
  then have "mset (filter P es) = {#x#}" using assms(2) by simp
  then show ?thesis by (simp only: mset_single_iff)
qed

lemma c_and_cpp_exclusive: "suffix ''.c'' x \<Longrightarrow> suffix ''.cpp'' x \<Longrightarrow> False"
  by (auto simp: suffix_def append_eq_append_conv2 Cons_eq_append_conv append_eq_Cons_conv)

subsection \<open>C3: what the lister returns\<close>

text \<open>
  C3, as stated, fails: the result is not sorted (\<^verbatim>\<open>b.c\<close> and \<^verbatim>\<open>a.cpp\<close> come out as
  \<^verbatim>\<open>cases/b.c\<close>, \<^verbatim>\<open>cases/a.cpp\<close>, whatever the enumeration order of the directory), and
  an entry whose name begins with a dot is left out although it ends in \<^verbatim>\<open>.c\<close>.
\<close>

theorem source_files_sorted_counterexample:
  "source_files [''cases'' \<mapsto> Dir [(''b.c'', File), (''a.cpp'', File)]]
     = [''cases/b.c'', ''cases/a.cpp'']
   \<and> source_files [''cases'' \<mapsto> Dir [(''a.cpp'', File), (''b.c'', File)]]
     = [''cases/b.c'', ''cases/a.cpp'']
   \<and> \<not> sorted [''cases/b.c'', ''cases/a.cpp'']
   \<and> source_files [''cases'' \<mapsto> Dir [(''.x.c'', File)]] = []"
  by (simp add: source_files_eq listdir_def suffix_def list_le_def)

text \<open>
  C3, amended: for a directory \<^verbatim>\<open>cases\<close> with entries \<open>es\<close>, the lister returns the paths
  \<^verbatim>\<open>cases/<name>\<close> of the entries directly inside it whose names do not begin with a dot
  and end in \<^verbatim>\<open>.c\<close>, in enumeration order, followed by those whose names end in
  \<^verbatim>\<open>.cpp\<close>; nothing below a subdirectory is listed. For the directory holding
  \<^verbatim>\<open>a.c\<close>, \<^verbatim>\<open>b.cpp\<close>, \<^verbatim>\<open>c.txt\<close> and \<^verbatim>\<open>sub/d.c\<close>, enumerated in any order, the
  result is exactly \<^verbatim>\<open>cases/a.c\<close>, \<^verbatim>\<open>cases/b.cpp\<close>.
\<close>

theorem source_files_listing:
  "source_files (fs(''cases'' \<mapsto> Dir es)) =
     map (\<lambda>n. ''cases/'' @ n)
       ([n \<leftarrow> map fst es. \<not> ishidden n \<and> suffix ''.c'' n] @
        [n \<leftarrow> map fst es. \<not> ishidden n \<and> suffix ''.cpp'' n])
   \<and> (mset es = mset example_entries \<longrightarrow>
        source_files (fs(''cases'' \<mapsto> Dir es)) = [''cases/a.c'', ''cases/b.cpp''])"
proof (intro conjI impI)
  show general: "source_files (fs(''cases'' \<mapsto> Dir es)) =
     map (\<lambda>n. ''cases/'' @ n)
       ([n \<leftarrow> map fst es. \<not> ishidden n \<and> suffix ''.c'' n] @
        [n \<leftarrow> map fst es. \<not> ishidden n \<and> suffix ''.cpp'' n])"
    by (simp add: source_files_eq listdir_def)
  assume "mset es = mset example_entries"
  then have m: "mset (map fst es) = mset (map fst example_entries)"
    by (metis mset_map)
  have c: "[n \<leftarrow> map fst es. \<not> ishidden n \<and> suffix ''.c'' n] = [''a.c'']"
    by (rule filter_single [OF m]) (simp add: example_entries_def suffix_def)
  have cpp: "[n \<leftarrow> map fst es. \<not> ishidden n \<and> suffix ''.cpp'' n] = [''b.cpp'']"
    by (rule filter_single [OF m]) (simp add: example_entries_def suffix_def)
  show "source_files (fs(''cases'' \<mapsto> Dir es)) = [''cases/a.c'', ''cases/b.cpp'']"
    unfolding general c cpp by simp
qed

theorem source_files_listing_witness:
  "mset (rev example_entries) = mset example_entries
   \<and> source_files [''cases'' \<mapsto> Dir (rev example_entries)] = [''cases/a.c'', ''cases/b.cpp'']"
proof -
  have h: "mset (rev example_entries) = mset example_entries"
    by simp
  from source_files_listing [of Map.empty "rev example_entries"] h show ?thesis
    by blast
qed

subsection \<open>C5 and C6: a missing and an empty directory\<close>





text \<open>
  C6, as stated, fails in its second half: an empty \<^verbatim>\<open>cases\<close> directory and a missing one
  give the same outcome.
\<close>

theorem wildcard_conflates_counterexample:
  "wildcard ascii_stdout [''cases'' \<mapsto> Dir []] = wildcard ascii_stdout Map.empty"
  by (simp add: wildcard_def source_files_eq listdir_def)

text \<open>
  C6, amended: for an existing but empty \<^verbatim>\<open>cases\<close> directory the lister returns the empty
  sequence and raises no error; a missing directory is given the same outcome.
\<close>

theorem wildcard_empty_directory:
  "wildcard out (fs(''cases'' \<mapsto> Dir [])) = Inr []
   \<and> wildcard out (fs(''cases'' := None)) = wildcard out (fs(''cases'' \<mapsto> Dir []))"
  by (simp add: wildcard_def source_files_eq listdir_def)

subsection \<open>C10: the \<^verbatim>\<open>.c\<close> matches come first\<close>

text \<open>
  C10: in the lister's output every path ending in \<^verbatim>\<open>.c\<close> stands before every path
  ending in \<^verbatim>\<open>.cpp\<close>, whatever the file names are.
\<close>

theorem source_files_c_before_cpp:
  assumes "i < length (source_files fs)" and "j < length (source_files fs)"
    and "suffix ''.c'' (source_files fs ! i)" and "suffix ''.cpp'' (source_files fs ! j)"
  shows "i < j"
proof -
  define A where
    "A = map (\<lambda>n. ''cases/'' @ n) [n \<leftarrow> listdir (fs ''cases''). \<not> ishidden n \<and> suffix ''.c'' n]"
  define B where
    "B = map (\<lambda>n. ''cases/'' @ n) [n \<leftarrow> listdir (fs ''cases''). \<not> ishidden n \<and> suffix ''.cpp'' n]"
  have sf: "source_files fs = A @ B"
    by (simp add: A_def B_def source_files_eq)
  have A: "\<And>x. x \<in> set A \<Longrightarrow> suffix ''.c'' x"
    by (auto simp: A_def suffix_def)
  have B: "\<And>x. x \<in> set B \<Longrightarrow> suffix ''.cpp'' x"
    by (auto simp: B_def suffix_def)
  have i: "i < length A"
  proof (rule ccontr)
    assume "\<not> i < length A"
    then have "(A @ B) ! i \<in> set B"
      using assms(1) by (simp add: sf nth_append)
    then show False
      using B c_and_cpp_exclusive assms(3) unfolding sf by blast
  qed
  have j: "\<not> j < length A"
  proof
    assume "j < length A"
    then have "(A @ B) ! j \<in> set A"
      by (simp add: nth_append)
    then show False
      using A c_and_cpp_exclusive assms(4) unfolding sf by blast
  qed
  from i j show ?thesis by simp
qed

theorem source_files_c_before_cpp_witness:
  "0 < length (source_files [''cases'' \<mapsto> Dir [(''a.cpp'', File), (''b.c'', File)]])
   \<and> 1 < length (source_files [''cases'' \<mapsto> Dir [(''a.cpp'', File), (''b.c'', File)]])
   \<and> suffix ''.c'' (source_files [''cases'' \<mapsto> Dir [(''a.cpp'', File), (''b.c'', File)]] ! 0)
   \<and> suffix ''.cpp'' (source_files [''cases'' \<mapsto> Dir [(''a.cpp'', File), (''b.c'', File)]] ! 1)
   \<and> (0::nat) < 1"
  using source_files_c_before_cpp [of 0 "[''cases'' \<mapsto> Dir [(''a.cpp'', File), (''b.c'', File)]]" 1]
  by (simp add: source_files_eq listdir_def suffix_def)

section \<open>Properties of the package recipe\<close>

lemma set_walk: "set (walk fs src) = {rel. rel \<noteq> [] \<and> src @ rel \<in> fst ` set fs}"
proof (intro set_eqI iffI)
  fix rel
  assume "rel \<in> set (walk fs src)"
  then obtain p where p: "p \<in> fst ` set fs" "strict_prefix src p" "rel = drop (length src) p"
    by (auto simp: walk_def)
  from p(2) obtain zs where "p = src @ zs" "zs \<noteq> []"
    by (auto simp: strict_prefix_def prefix_def)
  with p show "rel \<in> {rel. rel \<noteq> [] \<and> src @ rel \<in> fst ` set fs}"
    by simp
next
  fix rel
  assume "rel \<in> {rel. rel \<noteq> [] \<and> src @ rel \<in> fst ` set fs}"
  then have ne: "rel \<noteq> []" and mem: "src @ rel \<in> fst ` set fs"
    by simp_all
  have "strict_prefix src (src @ rel)"
    using ne by (simp add: strict_prefix_def)
  moreover have "rel = drop (length src) (src @ rel)"
    by simp
  ultimately show "rel \<in> set (walk fs src)"
    using mem unfolding walk_def by force
qed

lemma lower_pattern_h: "lower ''*.h'' = ''*.h''"
  by (simp add: lower_def lower_char_def)

lemma join_path_last: "rel \<noteq> [] \<Longrightarrow> \<exists>pre. join_path rel = pre @ last rel"
  by (induction rel rule: join_path.induct) auto

lemma matches_header:
  assumes "rel \<noteq> []" and "suffix ''.h'' (last rel)"
  shows "fnmatchcase (lower (join_path rel)) (lower ''*.h'')"
proof -
  obtain pre where pre: "join_path rel = pre @ last rel"
    using join_path_last [OF assms(1)] by blast
  obtain stem where stem: "last rel = stem @ ''.h''"
    using assms(2) by (auto simp: suffix_def)
  have "lower (join_path rel) = lower (pre @ stem) @ lower ''.h''"
    by (simp add: pre stem lower_def)
  also have "lower ''.h'' = ''.h''"
    by (simp add: lower_def lower_char_def)
  finally have "suffix ''.h'' (lower (join_path rel))"
    by (simp add: suffix_def)
  then show ?thesis
    unfolding lower_pattern_h by (subst fnmatchcase_star_literal) simp_all
qed

lemma copy_files_dom:
  "copy_files src dst rels fs = (None, fs') \<Longrightarrow>
     dom (map_of fs) \<subseteq> dom (map_of fs') \<and> (\<forall>rel \<in> set rels. dst @ rel \<in> dom (map_of fs'))"
proof (induction rels arbitrary: fs)
  case Nil
  then show ?case by simp
next
  case (Cons rel rels)
  then obtain c where c: "map_of fs (src @ rel) = Some c"
    and rest: "copy_files src dst rels (AList.update (dst @ rel) c fs) = (None, fs')"
    by (auto split: option.splits)
  have grow: "dom (map_of fs) \<subseteq> dom (map_of (AList.update (dst @ rel) c fs))"
    and here: "dst @ rel \<in> dom (map_of (AList.update (dst @ rel) c fs))"
    by (auto simp: update_conv')
  from Cons.IH [OF rest] have
    ih1: "dom (map_of (AList.update (dst @ rel) c fs)) \<subseteq> dom (map_of fs')" and
    ih2: "\<forall>r \<in> set rels. dst @ r \<in> dom (map_of fs')"
    by blast+
  from grow here ih1 ih2 show ?case
    by (simp add: subset_iff)
qed

lemma copy_files_result:
  assumes "\<forall>rel \<in> set rels. \<forall>rel' \<in> set rels. dst @ rel \<noteq> src @ rel'"
    and "copy_files src dst rels fs = (None, fs')"
  shows "map_of fs' = copied src dst (set rels) (map_of fs)"
  using assms
proof (induction rels arbitrary: fs)
  case Nil
  then show ?case by (simp add: copied_def)
next
  case (Cons rel rels)
  from Cons.prems(2) obtain c where c: "map_of fs (src @ rel) = Some c"
    and rest: "copy_files src dst rels (AList.update (dst @ rel) c fs) = (None, fs')"
    by (auto split: option.splits)
  let ?fs1 = "AList.update (dst @ rel) c fs"
  have m1: "map_of ?fs1 = (map_of fs)(dst @ rel \<mapsto> c)"
    by (simp add: update_conv')
  have 1: "\<forall>r \<in> set rels. \<forall>r' \<in> set rels. dst @ r \<noteq> src @ r'"
    using Cons.prems(1) by simp
  have m: "map_of fs' = copied src dst (set rels) (map_of ?fs1)"
    by (rule Cons.IH [OF 1 rest])
  have "copied src dst (set rels) (map_of ?fs1) = copied src dst (set (rel # rels)) (map_of fs)"
  proof
    fix p
    show "copied src dst (set rels) (map_of ?fs1) p = copied src dst (set (rel # rels)) (map_of fs) p"
      using Cons.prems(1) c
      by (auto simp: copied_def m1 prefix_def)
  qed
  with m show ?case by simp
qed

lemma set_filter_files:
  "set (filter_files fs src pat) =
     {rel. rel \<noteq> [] \<and> src @ rel \<in> dom (map_of fs) \<and> fnmatchcase (lower (join_path rel)) (lower pat)}"
  by (auto simp: filter_files_def set_walk dom_map_of_conv_image_fst)

lemma src_ne_dst: "header_src s \<noteq> header_dst s"
proof
  assume "header_src s = header_dst s"
  then have "take 3 (rev (header_src s)) = take 3 (rev (header_dst s))" by simp
  then show False by (simp add: header_src_def header_dst_def)
qed

lemma package_eq:
  "package t s =
     (case meson_install t (package_folder s) (files s) of
        (Some msg, fs1) \<Rightarrow> (Some (ConanException msg), s\<lparr>files := fs1\<rparr>)
      | (None, fs1) \<Rightarrow>
          (case copy_files (header_src s) (header_dst s)
                  (filter_files fs1 (header_src s) ''*.h'') fs1 of
             (r, fs2) \<Rightarrow> (r, s\<lparr>files := fs2\<rparr>)))"
  by (simp add: package_def and_then_def external_def copy_def src_ne_dst
      header_src_def header_dst_def split: prod.splits option.splits)

lemma no_overlap:
  assumes "\<not> prefix src dst" and "\<not> prefix dst src"
  shows "dst @ rel \<noteq> src @ rel'" and "\<not> prefix dst (src @ rel')"
  using assms by (auto simp: append_eq_append_conv2 prefix_def)


subsection \<open>C2: the header copy\<close>

text \<open>
  C2: when \<^verbatim>\<open>package\<close> completes, every file of the source folder
  \<^verbatim>\<open>code/logic/fossil/ai\<close> whose name ends in \<^verbatim>\<open>.h\<close>, as the folder is once the
  external install step has run (\<open>fs1\<close>, whatever that step installed, headers or not),
  has a file of the same relative name under \<^verbatim>\<open>include/fossil/ai\<close> of the package
  folder; every file the bare install step produced is still there; and when neither of the
  two folders lies inside the other, the file in the package folder has the content of the
  source header.
\<close>

theorem package_copies_headers:
  assumes inst: "meson_install t (package_folder s) (files s) = (r, fs1)"
    and fin: "package t s = (None, s')"
  shows "(\<forall>rel c. rel \<noteq> [] \<and> suffix ''.h'' (last rel) \<and> map_of fs1 (header_src s @ rel) = Some c
            \<longrightarrow> header_dst s @ rel \<in> dom (map_of (files s')))
       \<and> dom (map_of fs1) \<subseteq> dom (map_of (files s'))
       \<and> (\<not> prefix (header_src s) (header_dst s) \<and> \<not> prefix (header_dst s) (header_src s) \<longrightarrow>
            (\<forall>rel c. rel \<noteq> [] \<and> suffix ''.h'' (last rel) \<and> map_of fs1 (header_src s @ rel) = Some c
               \<longrightarrow> map_of (files s') (header_dst s @ rel) = Some c))"
proof -
  let ?src = "header_src s" and ?dst = "header_dst s"
  let ?rels = "filter_files fs1 ?src ''*.h''"
  from inst fin have r: "r = None"
    by (auto simp: package_eq split: option.splits prod.splits)
  from inst fin r have cp: "copy_files ?src ?dst ?rels fs1 = (None, files s')"
    by (auto simp: package_eq split: option.splits prod.splits)
  have hdr: "rel \<in> set ?rels"
    if "rel \<noteq> []" "suffix ''.h'' (last rel)" "map_of fs1 (?src @ rel) = Some c" for rel c
    using that by (auto simp: set_filter_files matches_header)
  from copy_files_dom [OF cp] have
    grow: "dom (map_of fs1) \<subseteq> dom (map_of (files s'))" and
    there: "\<forall>rel \<in> set ?rels. ?dst @ rel \<in> dom (map_of (files s'))"
    by blast+
  have content: "map_of (files s') (?dst @ rel) = Some c"
    if sep: "\<not> prefix ?src ?dst" "\<not> prefix ?dst ?src"
      and rel: "rel \<noteq> []" "suffix ''.h'' (last rel)" "map_of fs1 (?src @ rel) = Some c" for rel c
  proof -
    have 1: "\<forall>r \<in> set ?rels. \<forall>r' \<in> set ?rels. ?dst @ r \<noteq> ?src @ r'"
      using no_overlap(1) [OF sep] by blast
    from copy_files_result [OF 1 cp]
    have "map_of (files s') = copied ?src ?dst (set ?rels) (map_of fs1)" .
    then show ?thesis
      using hdr [OF rel] rel(3) by (simp add: copied_def)
  qed
  show ?thesis
    using hdr there grow content by blast
qed


lemma package_example:
  "package tools_quiet (fresh [''p''] [''w''] example_tree) =
     (None, (fresh [''p''] [''w''] example_tree)
        \<lparr>files := example_tree @ [([''p'', ''include'', ''fossil'', ''ai'', ''jellyfish.h''], ''header'')]\<rparr>)"
  by (simp add: package_eq tools_quiet_def quiet_def fresh_def example_tree_def
      header_src_def header_dst_def filter_files_def walk_def lower_def lower_char_def
      makedirs_def)

theorem package_copies_headers_witness:
  "meson_install tools_quiet [''p''] example_tree = (None, example_tree)
   \<and> package tools_quiet (fresh [''p''] [''w''] example_tree) =
       (None, (fresh [''p''] [''w''] example_tree)
          \<lparr>files := example_tree @ [([''p'', ''include'', ''fossil'', ''ai'', ''jellyfish.h''], ''header'')]\<rparr>)
   \<and> [''p'', ''include'', ''fossil'', ''ai'', ''jellyfish.h'']
       \<in> dom (map_of (example_tree @ [([''p'', ''include'', ''fossil'', ''ai'', ''jellyfish.h''], ''header'')]))"
proof -
  let ?s = "fresh [''p''] [''w''] example_tree"
  let ?s' = "?s\<lparr>files := example_tree @ [([''p'', ''include'', ''fossil'', ''ai'', ''jellyfish.h''], ''header'')]\<rparr>"
  have inst: "meson_install tools_quiet (package_folder ?s) (files ?s) = (None, example_tree)"
    by (simp add: tools_quiet_def quiet_def fresh_def)
  have hdr: "[''jellyfish.h''] \<noteq> [] \<and> suffix ''.h'' (last [''jellyfish.h''])
      \<and> map_of example_tree (header_src ?s @ [''jellyfish.h'']) = Some ''header''"
    by (simp add: suffix_def example_tree_def header_src_def fresh_def)
  from package_copies_headers [OF inst package_example] hdr
  have "header_dst ?s @ [''jellyfish.h''] \<in> dom (map_of (files ?s'))"
    by blast
  then show ?thesis
    using inst package_example by (simp add: header_dst_def fresh_def)
qed

text \<open>
  The copy does raise when a regular file is on the way to the output header folder: here
  the install step has written a regular file \<^verbatim>\<open>p/include\<close>.
\<close>

lemma package_blocked_example:
  "package (tools_quiet\<lparr>meson_install := (\<lambda>pf fs. (None, AList.update (pf @ [''include'']) ''text'' fs))\<rparr>)
     (fresh [''p''] [''w''] example_tree) =
   (Some (OSError NotADirectoryError),
    (fresh [''p''] [''w''] example_tree)\<lparr>files := example_tree @ [([''p'', ''include''], ''text'')]\<rparr>)"
  by (simp add: package_eq tools_quiet_def fresh_def example_tree_def
      header_src_def header_dst_def filter_files_def walk_def lower_def lower_char_def
      makedirs_def)

subsection \<open>C9: packaging twice\<close>

text \<open>
  C9, as stated for every behaviour of the external install step, fails: with an install
  step that appends a line to a log in the package folder, the second run of
  \<^verbatim>\<open>package\<close> leaves a package folder that differs from the one the first run left.
\<close>

theorem package_twice_counterexample:
  "package tools_logging (fresh [''p''] [''w''] []) =
     (None, (fresh [''p''] [''w''] [])\<lparr>files := [([''p'', ''install.log''], ''installed;'')]\<rparr>)
   \<and> package tools_logging
       ((fresh [''p''] [''w''] [])\<lparr>files := [([''p'', ''install.log''], ''installed;'')]\<rparr>) =
     (None, (fresh [''p''] [''w''] [])
        \<lparr>files := [([''p'', ''install.log''], ''installed;installed;'')]\<rparr>)
   \<and> [([''p'', ''install.log''], ''installed;installed;'')] \<noteq> [([''p'', ''install.log''], ''installed;'')]"
  by (simp add: package_eq tools_logging_def tools_quiet_def fresh_def
      header_src_def header_dst_def filter_files_def walk_def)

text \<open>
  C9, amended: \<^verbatim>\<open>package\<close> is idempotent when the external install step is repeatable.
  Let the first run complete and leave \<open>s1\<close>, and let the install step, run again on the
  files of \<open>s1\<close>, change no file other than header copies that \<^verbatim>\<open>package\<close> makes
  (\<open>fs3\<close> is what it leaves). If neither of the source header folder and the output header
  folder lies inside the other and the second run completes too, it leaves every path of
  the file system with the content it had after the first run, and nothing else of the
  instance changes.
\<close>

theorem package_idempotent:
  assumes first: "package t s = (None, s1)"
    and again: "meson_install t (package_folder s1) (files s1) = (r, fs3)"
    and repeatable:
      "\<forall>p. map_of fs3 p = map_of (files s1) p \<or>
           (\<exists>rel \<in> set (filter_files (files s1) (header_src s) ''*.h''). p = header_dst s @ rel)"
    and second: "package t s1 = (None, s2)"
    and sep: "\<not> prefix (header_src s) (header_dst s)" "\<not> prefix (header_dst s) (header_src s)"
  shows "map_of (files s2) = map_of (files s1) \<and> s2 = s1\<lparr>files := files s2\<rparr>"
proof -
  let ?src = "header_src s" and ?dst = "header_dst s"
  obtain r1 fs1 where i1: "meson_install t (package_folder s) (files s) = (r1, fs1)"
    by (cases "meson_install t (package_folder s) (files s)") blast
  let ?R1 = "set (filter_files fs1 ?src ''*.h'')"
  let ?R2 = "set (filter_files (files s1) ?src ''*.h'')"
  let ?R3 = "set (filter_files fs3 ?src ''*.h'')"
  from i1 first have cp1: "copy_files ?src ?dst (filter_files fs1 ?src ''*.h'') fs1 = (None, files s1)"
    and s1: "s1 = s\<lparr>files := files s1\<rparr>"
    by (auto simp: package_eq split: option.splits prod.splits)
  have same: "header_src s1 = ?src" "header_dst s1 = ?dst"
    by (subst s1, simp add: header_src_def header_dst_def)+
  from again second have cp3: "copy_files ?src ?dst (filter_files fs3 ?src ''*.h'') fs3 = (None, files s2)"
    and s2: "s2 = s1\<lparr>files := files s2\<rparr>"
    by (auto simp: package_eq same split: option.splits prod.splits)
  have apart: "?dst @ rel \<noteq> ?src @ rel'" for rel rel'
    using no_overlap(1) [OF sep] .
  have m2: "map_of (files s1) = copied ?src ?dst ?R1 (map_of fs1)"
    by (rule copy_files_result [OF _ cp1]) (simp add: apart)
  have m4: "map_of (files s2) = copied ?src ?dst ?R3 (map_of fs3)"
    by (rule copy_files_result [OF _ cp3]) (simp add: apart)
  have srcs2: "map_of (files s1) (?src @ rel) = map_of fs1 (?src @ rel)" for rel
    using no_overlap(2) [OF sep, of rel] by (simp add: m2 copied_def)
  have srcs3: "map_of fs3 (?src @ rel) = map_of (files s1) (?src @ rel)" for rel
    using repeatable apart by metis
  have R21: "?R2 = ?R1"
    by (simp add: set_filter_files dom_def srcs2)
  have R32: "?R3 = ?R2"
    by (simp add: set_filter_files dom_def srcs3)
  have "map_of (files s2) p = map_of (files s1) p" for p
  proof (cases "prefix ?dst p \<and> drop (length ?dst) p \<in> ?R1")
    case True
    have "map_of (files s2) p = map_of fs3 (?src @ drop (length ?dst) p)"
      using True by (simp add: m4 R32 R21 copied_def)
    also have "\<dots> = map_of fs1 (?src @ drop (length ?dst) p)"
      by (simp only: srcs3 srcs2)
    also have "\<dots> = map_of (files s1) p"
      using True by (simp add: m2 copied_def)
    finally show ?thesis .
  next
    case False
    have "map_of fs3 p = map_of (files s1) p"
    proof (rule ccontr)
      assume "map_of fs3 p \<noteq> map_of (files s1) p"
      with repeatable obtain rel where "rel \<in> ?R2" "p = ?dst @ rel"
        by blast
      with False R21 show False by simp
    qed
    with False show ?thesis
      by (auto simp: m4 R32 R21 copied_def)
  qed
  then have "map_of (files s2) = map_of (files s1)"
    by (rule ext)
  with s2 show ?thesis by simp
qed


text \<open>
  The amended C9 at an install step that replaces the library archive by the built one:
  the second run moves the archive to the end of the enumeration and changes no content.
\<close>

theorem package_idempotent_witness:
  "package tools_archive (fresh [''p''] [''w''] built_tree) =
     (None, (fresh [''p''] [''w''] built_tree)\<lparr>files := packaged_once\<rparr>)
   \<and> meson_install tools_archive [''p''] packaged_once = (None, packaged_twice)
   \<and> package tools_archive ((fresh [''p''] [''w''] built_tree)\<lparr>files := packaged_once\<rparr>) =
     (None, (fresh [''p''] [''w''] built_tree)\<lparr>files := packaged_twice\<rparr>)
   \<and> packaged_twice \<noteq> packaged_once
   \<and> map_of packaged_twice = map_of packaged_once"
proof -
  let ?s = "fresh [''p''] [''w''] built_tree"
  let ?s1 = "?s\<lparr>files := packaged_once\<rparr>"
  let ?s2 = "?s\<lparr>files := packaged_twice\<rparr>"
  have first: "package tools_archive ?s = (None, ?s1)"
    by (simp add: package_eq tools_archive_def tools_quiet_def fresh_def built_tree_def
        example_tree_def packaged_once_def header_src_def header_dst_def filter_files_def
        walk_def lower_def lower_char_def makedirs_def)
  have again: "meson_install tools_archive (package_folder ?s1) (files ?s1) = (None, packaged_twice)"
    by (simp add: tools_archive_def tools_quiet_def fresh_def built_tree_def
        example_tree_def packaged_once_def packaged_twice_def)
  have repeatable:
    "\<forall>p. map_of packaged_twice p = map_of (files ?s1) p \<or>
         (\<exists>rel \<in> set (filter_files (files ?s1) (header_src ?s) ''*.h''). p = header_dst ?s @ rel)"
    by (simp add: built_tree_def example_tree_def packaged_once_def packaged_twice_def)
  have second: "package tools_archive ?s1 = (None, ?s2)"
    by (simp add: package_eq tools_archive_def tools_quiet_def fresh_def built_tree_def
        example_tree_def packaged_once_def packaged_twice_def header_src_def header_dst_def
        filter_files_def walk_def lower_def lower_char_def makedirs_def)
  have sep: "\<not> prefix (header_src ?s) (header_dst ?s)" "\<not> prefix (header_dst ?s) (header_src ?s)"
    by (simp_all add: header_src_def header_dst_def fresh_def)
  have differ: "packaged_twice \<noteq> packaged_once"
    by (simp add: packaged_once_def packaged_twice_def)
  from package_idempotent [OF first again repeatable second sep]
  have "map_of (files ?s2) = map_of (files ?s1)"
    by blast
  with first again second differ show ?thesis
    by (simp add: fresh_def)
qed

subsection \<open>C1: one fetch per source acquisition\<close>




subsection \<open>C7 and C8: consumer metadata and folder layout\<close>

text \<open>
  C7: \<^verbatim>\<open>package_info\<close> never fails and leaves the consumer metadata equal to
  \<^verbatim>\<open>{libs: ["fossil_jellyfish"], includedirs: ["include"]}\<close>, the library list being the
  package name; the metadata is the same for any two calls, in whatever states and with
  whatever tools, and a second call changes nothing.
\<close>

theorem package_info_constant:
  "fst (package_info t s) = None
   \<and> cpp_info (snd (package_info t s)) = \<lparr>libs = [''fossil_jellyfish''], includedirs = [''include'']\<rparr>
   \<and> libs (cpp_info (snd (package_info t s))) = [name]
   \<and> cpp_info (snd (package_info t' s')) = cpp_info (snd (package_info t s))
   \<and> package_info t (snd (package_info t s)) = package_info t s"
  by (simp add: package_info_def name_def)

text \<open>
  C8: \<^verbatim>\<open>layout\<close> never fails and, whatever the prior state, sets the source folder to
  \<^verbatim>\<open>.\<close> and the build folder to \<^verbatim>\<open>builddir\<close>.
\<close>

theorem layout_fixed_folders:
  "fst (layout t s) = None
   \<and> folders_source (snd (layout t s)) = ''.''
   \<and> folders_build (snd (layout t s)) = ''builddir''"
  by (simp add: layout_def)


subsection \<open>C4: no sequence enforcement\<close>

text \<open>
  C4, as stated, fails: on an instance on which no step has run (no command issued, no
  source fetched), \<^verbatim>\<open>build\<close> completes without any error when the external tools
  succeed; so does \<^verbatim>\<open>package\<close>, before any build.
\<close>

theorem build_unsequenced_counterexample:
  "commands (fresh [''p''] [''w''] []) = []
   \<and> files (fresh [''p''] [''w''] []) = []
   \<and> build tools_quiet (fresh [''p''] [''w''] []) = (None, fresh [''p''] [''w''] [])
   \<and> package tools_quiet (fresh [''p''] [''w''] []) = (None, fresh [''p''] [''w''] [])"
  by (simp add: build_def package_eq and_then_def external_def tools_quiet_def quiet_def
      fresh_def header_src_def header_dst_def filter_files_def walk_def)

lemma build_eq:
  "build t s =
     (case meson_configure t (folders_source s) (folders_build s) (files s) of
        (Some msg, fs1) \<Rightarrow> (Some (ConanException msg), s\<lparr>files := fs1\<rparr>)
      | (None, fs1) \<Rightarrow>
          (case meson_build t (folders_build s) fs1 of
             (r, fs2) \<Rightarrow> (map_option ConanException r, s\<lparr>files := fs2\<rparr>)))"
  by (simp add: build_def and_then_def external_def split: prod.splits option.splits)

text \<open>
  C4, amended: \<^verbatim>\<open>build\<close> makes no check of the lifecycle position. Invoked in any
  state, also one in which the source acquisition has not completed, it runs the external
  configure step and then the external build step: it completes exactly when both
  succeed, and when it fails the error is the failure of the external tool (a
  \<^verbatim>\<open>ConanException\<close>), not a sequence error.
\<close>

theorem build_no_sequence_check:
  "(fst (build t s) = None) =
     (fst (meson_configure t (folders_source s) (folders_build s) (files s)) = None
      \<and> fst (meson_build t (folders_build s)
               (snd (meson_configure t (folders_source s) (folders_build s) (files s)))) = None)
   \<and> (\<forall>e. fst (build t s) = Some e \<longrightarrow> (\<exists>msg. e = ConanException msg))"
  by (auto simp: build_eq split: prod.splits option.splits)

text \<open>The amended C4 at tools whose configure step fails.\<close>

theorem build_no_sequence_check_witness:
  "fst (build tools_failing (fresh [''p''] [''w''] [])) = Some (ConanException ''meson setup failed'')
   \<and> (\<exists>msg. ConanException ''meson setup failed'' = ConanException msg)"
proof -
  have f: "fst (build tools_failing (fresh [''p''] [''w''] [])) = Some (ConanException ''meson setup failed'')"
    by (simp add: build_eq tools_failing_def tools_quiet_def fresh_def)
  with build_no_sequence_check [of tools_failing "fresh [''p''] [''w''] []"] show ?thesis
    by blast
qed

end
